theory Spec2Isabelle
  imports Main "HOL-Library.Sublist"
begin

section \<open>Go strings and the library functions the package calls\<close>

text \<open>
  A Go string is a sequence of bytes, and \<open>len\<close> counts bytes: it is a \<^typ>\<open>string\<close>
  here (a list of 8-bit characters). The functions of this section belong to the Go
  standard library (\<open>strings\<close>, \<open>strconv\<close>, \<open>fmt\<close>, \<open>bytes\<close>), not to the package; they
  are modelled from their documentation, as far as \<open>bibtex.go\<close> uses them.
\<close>

subsection \<open>\<open>strings.TrimSpace\<close>\<close>

text \<open>
  \<open>strings.TrimSpace\<close> removes the leading and the trailing white space, as
  \<open>unicode.IsSpace\<close> defines it, rune by rune. The white-space runes are listed here in
  their UTF-8 encoding: the six ASCII ones, U+0085, U+00A0, U+1680, U+2000 to U+200A,
  U+2028, U+2029, U+202F, U+205F and U+3000. A byte sequence that is not valid UTF-8
  decodes to U+FFFD, which is no white space, so trimming stops there.
\<close>

definition spaceRunes :: "string list" where
  "spaceRunes =
    [[CHR 0x09], [CHR 0x0A], [CHR 0x0B], [CHR 0x0C], [CHR 0x0D], [CHR 0x20],
     [CHR 0xC2, CHR 0x85], [CHR 0xC2, CHR 0xA0],
     [CHR 0xE1, CHR 0x9A, CHR 0x80],
     [CHR 0xE2, CHR 0x80, CHR 0x80], [CHR 0xE2, CHR 0x80, CHR 0x81],
     [CHR 0xE2, CHR 0x80, CHR 0x82], [CHR 0xE2, CHR 0x80, CHR 0x83],
     [CHR 0xE2, CHR 0x80, CHR 0x84], [CHR 0xE2, CHR 0x80, CHR 0x85],
     [CHR 0xE2, CHR 0x80, CHR 0x86], [CHR 0xE2, CHR 0x80, CHR 0x87],
     [CHR 0xE2, CHR 0x80, CHR 0x88], [CHR 0xE2, CHR 0x80, CHR 0x89],
     [CHR 0xE2, CHR 0x80, CHR 0x8A],
     [CHR 0xE2, CHR 0x80, CHR 0xA8], [CHR 0xE2, CHR 0x80, CHR 0xA9],
     [CHR 0xE2, CHR 0x80, CHR 0xAF],
     [CHR 0xE2, CHR 0x81, CHR 0x9F],
     [CHR 0xE3, CHR 0x80, CHR 0x80]]"

text \<open>The width in bytes of the first rune of \<open>rs\<close> that \<open>s\<close> starts with; 0 when there is none.\<close>

fun runeWidth :: "string list \<Rightarrow> string \<Rightarrow> nat" where
  "runeWidth [] s = 0"
| "runeWidth (r # rs) s = (if prefix r s then length r else runeWidth rs s)"

function trimRunes :: "string list \<Rightarrow> string \<Rightarrow> string" where
  "trimRunes rs s =
     (if runeWidth rs s = 0 \<or> s = [] then s else trimRunes rs (drop (runeWidth rs s) s))"
  by pat_completeness auto
termination
  by (relation "measure (\<lambda>(rs, s). length s)") auto

declare trimRunes.simps [simp del]

definition TrimLeftSpace :: "string \<Rightarrow> string" where
  "TrimLeftSpace s = trimRunes spaceRunes s"

definition TrimRightSpace :: "string \<Rightarrow> string" where
  "TrimRightSpace s = rev (trimRunes (map rev spaceRunes) (rev s))"

definition TrimSpace :: "string \<Rightarrow> string" where
  "TrimSpace s = TrimRightSpace (TrimLeftSpace s)"

subsection \<open>\<open>strconv.Atoi\<close> and the verb \<open>%d\<close>\<close>

text \<open>
  \<open>strconv.Atoi\<close> accepts an optional sign followed by one decimal digit or more, whose
  value fits the type \<open>int\<close> (64 bits here). Everything else is an error, a
  \<open>*strconv.NumError\<close>; the package only tests \<open>err == nil\<close>, so the cause of the error
  (syntax or range) is not modelled.
\<close>

datatype error = NumError

definition isDigit :: "char \<Rightarrow> bool" where
  "isDigit c \<longleftrightarrow> (48::int) \<le> of_char c \<and> of_char c \<le> (57::int)"

fun parseDigits :: "string \<Rightarrow> int \<Rightarrow> int option" where
  "parseDigits [] n = Some n"
| "parseDigits (c # cs) n =
     (if isDigit c then parseDigits cs (n * 10 + (of_char c - 48)) else None)"

definition Atoi :: "string \<Rightarrow> error + int" where
  "Atoi s =
     (case s of
        [] \<Rightarrow> Inl NumError
      | c # cs \<Rightarrow>
          let ds = (if c = CHR ''+'' \<or> c = CHR ''-'' then cs else s) in
          if ds = [] then Inl NumError
          else
            (case parseDigits ds 0 of
               None \<Rightarrow> Inl NumError
             | Some n \<Rightarrow>
                 let i = (if c = CHR ''-'' then - n else n) in
                 if - (2 ^ 63) \<le> i \<and> i \<le> 2 ^ 63 - 1 then Inr i else Inl NumError))"

text \<open>\<open>fmt.Sprintf("%d", i)\<close>: the decimal digits of \<open>i\<close>, after a minus sign when \<open>i < 0\<close>.\<close>

fun decimal :: "nat \<Rightarrow> string" where
  "decimal n =
     (if n < 10 then [''0123456789'' ! n]
      else decimal (n div 10) @ [''0123456789'' ! (n mod 10)])"

declare decimal.simps [simp del]

definition fmt_d :: "int \<Rightarrow> string" where
  "fmt_d i = (if i < 0 then CHR ''-'' # decimal (nat (- i)) else decimal (nat i))"

subsection \<open>\<open>strings.ContainsAny\<close>, \<open>strings.Repeat\<close> and \<open>bytes.Buffer\<close>\<close>

text \<open>
  \<open>strings.ContainsAny(s, chars)\<close> for \<open>chars\<close> made of ASCII bytes, as at its one call:
  an ASCII byte of \<open>s\<close> always decodes to itself, so the test is on bytes.
\<close>

definition ContainsAny :: "string \<Rightarrow> string \<Rightarrow> bool" where
  "ContainsAny s chars = list_ex (\<lambda>c. List.member chars c) s"

text \<open>
  The run-time panics of the library calls: \<open>strings.Repeat\<close> panics on a negative
  count, \<open>(*bytes.Buffer).Truncate\<close> on a length that is negative or beyond the buffer.
\<close>

datatype panic = RepeatNegativeCount | TruncateOutOfRange

definition Repeat :: "string \<Rightarrow> int \<Rightarrow> panic + string" where
  "Repeat s count =
     (if count < 0 then Inl RepeatNegativeCount else Inr (concat (replicate (nat count) s)))"

text \<open>
  A \<open>bytes.Buffer\<close> that is only written to is the string of the bytes written so far.
\<close>

type_synonym buffer = string

definition WriteString :: "buffer \<Rightarrow> string \<Rightarrow> buffer" where
  "WriteString b s = b @ s"

definition Len :: "buffer \<Rightarrow> int" where
  "Len b = int (length b)"

definition Truncate :: "buffer \<Rightarrow> int \<Rightarrow> panic + buffer" where
  "Truncate b n =
     (if n < 0 \<or> n > Len b then Inl TruncateOutOfRange else Inr (take (nat n) b))"

definition quote :: char where
  "quote = CHR 0x22"

section \<open>BibString: the segments of a bib string\<close>

text \<open>
  The interface \<open>BibString\<close> is implemented by \<open>*BibVar\<close>, by \<open>BibConst\<close> and, since the
  methods of \<open>BibConst\<close> have value receivers, by \<open>*BibConst\<close>, and by \<open>*BibComposite\<close>.
  The datatype has one constructor for each dynamic type a value of the interface can
  have; \<open>NewBibConst\<close> returns a \<open>BibConst\<close>, not a pointer to one.

  No function of the package writes to a \<open>BibVar\<close> after it is allocated
  (\<open>AddStringVar\<close> allocates a new one), so a pointer to a \<open>BibVar\<close> stands for the
  contents it points to. A composite is the sequence of its elements. The values are the
  non-nil ones.
\<close>

datatype BibString =
    BibConst string
  | BibConstPtr string
  | BibVarPtr BibVar
  | BibCompositePtr "BibString list"
and BibVar = BibVar (Key: string) (Value: BibString)

type_synonym BibComposite = "BibString list"

definition NewBibConst :: "string \<Rightarrow> BibString" where
  "NewBibConst c = BibConst c"

text \<open>
  \<open>String\<close> is the method of the interface, dispatched on the dynamic type;
  \<open>String_BibVar\<close> is \<open>(*BibVar).String\<close> and \<open>String_range\<close> the loop of
  \<open>(*BibComposite).String\<close>, with the buffer it writes to.
\<close>

fun String :: "BibString \<Rightarrow> string"
and String_BibVar :: "BibVar \<Rightarrow> string"
and String_range :: "BibString list \<Rightarrow> buffer \<Rightarrow> buffer"
where
  "String (BibConst c) = c"
| "String (BibConstPtr c) = c"
| "String (BibVarPtr v) = String_BibVar v"
| "String (BibCompositePtr c) = String_range c []"
| "String_BibVar (BibVar k val) = String val"
| "String_range [] buf = buf"
| "String_range (s # rest) buf = String_range rest (WriteString buf (String s))"

text \<open>
  \<open>RawString_range\<close> is the loop of \<open>(*BibComposite).RawString\<close>: \<open>i\<close> is the index of the
  element \<open>cmp\<close> (\<open>comp\<close> in the source). The type switch has the three cases
  \<open>*BibConst\<close>, \<open>*BibVar\<close> and \<open>*BibComposite\<close> and no default, so an element of dynamic
  type \<open>BibConst\<close> writes nothing after the separator.
\<close>

definition RawString_BibVar :: "BibVar \<Rightarrow> string" where
  "RawString_BibVar v = Key v"

definition RawString_BibConst :: "string \<Rightarrow> string" where
  "RawString_BibConst c = ''{'' @ c @ ''}''"

fun RawString :: "BibString \<Rightarrow> string"
and RawString_range :: "nat \<Rightarrow> BibString list \<Rightarrow> buffer \<Rightarrow> buffer"
where
  "RawString (BibConst c) = RawString_BibConst c"
| "RawString (BibConstPtr c) = RawString_BibConst c"
| "RawString (BibVarPtr v) = RawString_BibVar v"
| "RawString (BibCompositePtr c) = RawString_range 0 c []"
| "RawString_range i [] buf = buf"
| "RawString_range i (cmp # rest) buf =
     (let buf1 = (if i > 0 then WriteString buf '' # '' else buf) in
      RawString_range (Suc i) rest
        (case cmp of
           BibConstPtr c \<Rightarrow> WriteString buf1 (RawString cmp)
         | BibVarPtr v \<Rightarrow> WriteString buf1 (RawString cmp)
         | BibCompositePtr cs \<Rightarrow> WriteString buf1 (RawString cmp)
         | BibConst c \<Rightarrow> buf1))"

text \<open>
  \<open>NewBibComposite\<close> and \<open>Append\<close>, on the elements of the composite: \<open>Append\<close> returns
  a pointer to the slice \<open>append(*c, s)\<close>. In Go two composites appended to the same shorter
  one may share its backing array; the properties below are about one composite built
  from left to right, where this does not show.
\<close>

definition Append :: "BibComposite \<Rightarrow> BibString \<Rightarrow> BibComposite" where
  "Append c s = c @ [s]"

definition NewBibComposite :: "BibString \<Rightarrow> BibComposite" where
  "NewBibComposite s = Append [] s"

section \<open>Entries and the bibliography\<close>

text \<open>
  A Go map is a finite partial function. \<open>for key, val := range m\<close> visits every key
  once, in an order the language leaves open and that may differ from one loop to the
  next: \<open>range_map m kvs\<close> says that \<open>kvs\<close> is one such sequence of visits. A loop over a
  map is modelled as the loop over such a sequence, which the rendering functions take
  as an argument.
\<close>

definition range_map :: "('k \<rightharpoonup> 'v) \<Rightarrow> ('k \<times> 'v) list \<Rightarrow> bool" where
  "range_map m kvs \<longleftrightarrow> distinct (map fst kvs) \<and> map_of kvs = m"

record BibEntry =
  Type :: string
  CiteName :: string
  Fields :: "string \<rightharpoonup> BibString"

definition AddField :: "BibEntry \<Rightarrow> string \<Rightarrow> BibString \<Rightarrow> BibEntry" where
  "AddField entry name val = entry\<lparr>Fields := (Fields entry)(TrimSpace name \<mapsto> val)\<rparr>"

record BibTex =
  Preambles :: "BibString list"
  Entries :: "BibEntry list"
  StringVar :: "string \<rightharpoonup> BibVar"

definition NewBibTex :: BibTex where
  "NewBibTex = \<lparr>Preambles = [], Entries = [], StringVar = Map.empty\<rparr>"


definition AddEntry :: "BibTex \<Rightarrow> BibEntry \<Rightarrow> BibTex" where
  "AddEntry bib entry = bib\<lparr>Entries := Entries bib @ [entry]\<rparr>"

definition AddStringVar :: "BibTex \<Rightarrow> string \<Rightarrow> BibString \<Rightarrow> BibTex" where
  "AddStringVar bib key val = bib\<lparr>StringVar := (StringVar bib)(key \<mapsto> BibVar key val)\<rparr>"

text \<open>
  \<open>GetStringVar\<close> ends in \<open>log.Fatalf("%s: %s", ErrUnknownStringVar, key)\<close> when the key
  is missing: the message is logged and the process exits with status 1, so the
  \<open>return nil\<close> after it is never reached. The outcome \<open>UnknownStringVar key\<close> stands for
  that exit (\<open>ErrUnknownStringVar\<close> is declared outside \<open>bibtex.go\<close>; only the key is
  recorded).
\<close>

datatype fatal = UnknownStringVar string

definition GetStringVar :: "BibTex \<Rightarrow> string \<Rightarrow> fatal + BibVar" where
  "GetStringVar bib key =
     (case StringVar bib key of
        Some bv \<Rightarrow> Inr bv
      | None \<Rightarrow> Inl (UnknownStringVar key))"

section \<open>The three renderers\<close>

type_synonym fields_range = "(string \<times> BibString) list"

subsection \<open>\<open>(*BibTex).String\<close>\<close>

text \<open>
  \<open>String_field\<close> is the body of the loop over the fields, \<open>String_fields\<close> that loop, and
  \<open>String_entries\<close> the loop over the entries, each paired with the sequence in which its
  fields are visited. The buffer \<open>bibtex\<close> is threaded through.
\<close>

definition String_field :: "buffer \<Rightarrow> string \<times> BibString \<Rightarrow> buffer" where
  "String_field bibtex kv =
     (case kv of (key, val) \<Rightarrow>
        (case Atoi (TrimSpace (String val)) of
           Inr i \<Rightarrow> WriteString bibtex (''  '' @ key @ '' = '' @ fmt_d i @ '',\<newline>'')
         | Inl err \<Rightarrow>
             WriteString bibtex (''  '' @ key @ '' = {'' @ TrimSpace (String val) @ ''},\<newline>'')))"

fun String_fields :: "fields_range \<Rightarrow> buffer \<Rightarrow> buffer" where
  "String_fields [] bibtex = bibtex"
| "String_fields (kv # rest) bibtex = String_fields rest (String_field bibtex kv)"

fun String_entries :: "(BibEntry \<times> fields_range) list \<Rightarrow> buffer \<Rightarrow> panic + buffer" where
  "String_entries [] bibtex = Inr bibtex"
| "String_entries ((entry, kvs) # rest) bibtex =
     (let bibtex1 = WriteString bibtex (''@'' @ Type entry @ ''{'' @ CiteName entry @ '',\<newline>'');
          bibtex2 = String_fields kvs bibtex1
      in case Truncate bibtex2 (Len bibtex2 - 2) of
           Inl p \<Rightarrow> Inl p
         | Inr bibtex3 \<Rightarrow> String_entries rest (WriteString bibtex3 ''\<newline>}\<newline>''))"

definition String_BibTex :: "BibTex \<Rightarrow> fields_range list \<Rightarrow> panic + string" where
  "String_BibTex bib ords = String_entries (zip (Entries bib) ords) []"

subsection \<open>\<open>(*BibTex).RawString\<close>\<close>

fun RawString_vars :: "(string \<times> BibVar) list \<Rightarrow> buffer \<Rightarrow> buffer" where
  "RawString_vars [] bibtex = bibtex"
| "RawString_vars ((k, strvar) # rest) bibtex =
     RawString_vars rest
       (WriteString bibtex (''@string{'' @ k @ '' = {'' @ String_BibVar strvar @ ''}}\<newline>''))"

fun RawString_preambles :: "BibString list \<Rightarrow> buffer \<Rightarrow> buffer" where
  "RawString_preambles [] bibtex = bibtex"
| "RawString_preambles (preamble # rest) bibtex =
     RawString_preambles rest
       (WriteString bibtex (''@preamble{'' @ RawString preamble @ ''}\<newline>''))"

definition RawString_field :: "buffer \<Rightarrow> string \<times> BibString \<Rightarrow> buffer" where
  "RawString_field bibtex kv =
     (case kv of (key, val) \<Rightarrow>
        (case Atoi (TrimSpace (String val)) of
           Inr i \<Rightarrow> WriteString bibtex (''  '' @ key @ '' = '' @ fmt_d i @ '',\<newline>'')
         | Inl err \<Rightarrow> WriteString bibtex (''  '' @ key @ '' = '' @ RawString val @ '',\<newline>'')))"

fun RawString_fields :: "fields_range \<Rightarrow> buffer \<Rightarrow> buffer" where
  "RawString_fields [] bibtex = bibtex"
| "RawString_fields (kv # rest) bibtex = RawString_fields rest (RawString_field bibtex kv)"

fun RawString_entries :: "(BibEntry \<times> fields_range) list \<Rightarrow> buffer \<Rightarrow> panic + buffer" where
  "RawString_entries [] bibtex = Inr bibtex"
| "RawString_entries ((entry, kvs) # rest) bibtex =
     (let bibtex1 = WriteString bibtex (''@'' @ Type entry @ ''{'' @ CiteName entry @ '',\<newline>'');
          bibtex2 = RawString_fields kvs bibtex1
      in case Truncate bibtex2 (Len bibtex2 - 2) of
           Inl p \<Rightarrow> Inl p
         | Inr bibtex3 \<Rightarrow> RawString_entries rest (WriteString bibtex3 ''\<newline>}\<newline>''))"

definition RawString_BibTex ::
  "BibTex \<Rightarrow> (string \<times> BibVar) list \<Rightarrow> fields_range list \<Rightarrow> panic + string" where
  "RawString_BibTex bib vars ords =
     RawString_entries (zip (Entries bib) ords)
       (RawString_preambles (Preambles bib) (RawString_vars vars []))"

subsection \<open>\<open>(*BibTex).PrettyString\<close>\<close>

text \<open>
  \<open>PrettyString\<close> ranges over the fields of an entry twice: \<open>keylen_range\<close> is the first
  loop, over the keys, and \<open>PrettyString_fields\<close> the second. The two loops may visit the
  fields in different orders, so an entry comes with two sequences.
\<close>

fun keylen_range :: "string list \<Rightarrow> int \<Rightarrow> int" where
  "keylen_range [] keylen = keylen"
| "keylen_range (key # rest) keylen =
     keylen_range rest (if int (length key) > keylen then int (length key) else keylen)"

definition PrettyString_field :: "int \<Rightarrow> buffer \<Rightarrow> string \<times> BibString \<Rightarrow> panic + buffer" where
  "PrettyString_field keylen bibtex kv =
     (case kv of (key, val) \<Rightarrow>
        (case Atoi (TrimSpace (String val)) of
           Inr i \<Rightarrow>
             (case Repeat '' '' (keylen - int (length key)) of
                Inl p \<Rightarrow> Inl p
              | Inr pad \<Rightarrow>
                  Inr (WriteString bibtex (''  '' @ key @ pad @ '' = '' @ fmt_d i @ '',\<newline>'')))
         | Inl err \<Rightarrow>
             if ContainsAny (String val) [quote, CHR ''{'', CHR ''}'']
             then
               (case Repeat '' '' (keylen - int (length key)) of
                  Inl p \<Rightarrow> Inl p
                | Inr pad \<Rightarrow>
                    Inr (WriteString bibtex
                           (''  '' @ key @ pad @ '' = {'' @ String val @ ''},\<newline>'')))
             else
               (case Repeat '' '' (keylen - int (length key)) of
                  Inl p \<Rightarrow> Inl p
                | Inr pad \<Rightarrow>
                    Inr (WriteString bibtex
                           (''  '' @ key @ pad @ '' = '' @ [quote] @ String val @ [quote]
                              @ '',\<newline>'')))))"

fun PrettyString_fields :: "int \<Rightarrow> fields_range \<Rightarrow> buffer \<Rightarrow> panic + buffer" where
  "PrettyString_fields keylen [] bibtex = Inr bibtex"
| "PrettyString_fields keylen (kv # rest) bibtex =
     (case PrettyString_field keylen bibtex kv of
        Inl p \<Rightarrow> Inl p
      | Inr bibtex1 \<Rightarrow> PrettyString_fields keylen rest bibtex1)"

fun PrettyString_entries ::
  "(BibEntry \<times> string list \<times> fields_range) list \<Rightarrow> buffer \<Rightarrow> panic + buffer" where
  "PrettyString_entries [] bibtex = Inr bibtex"
| "PrettyString_entries ((entry, keys, kvs) # rest) bibtex =
     (let bibtex1 = WriteString bibtex (''@'' @ Type entry @ ''{'' @ CiteName entry @ '',\<newline>'');
          keylen = keylen_range keys 0
      in case PrettyString_fields keylen kvs bibtex1 of
           Inl p \<Rightarrow> Inl p
         | Inr bibtex2 \<Rightarrow> PrettyString_entries rest (WriteString bibtex2 ''}\<newline>''))"

definition PrettyString :: "BibTex \<Rightarrow> (string list \<times> fields_range) list \<Rightarrow> panic + string" where
  "PrettyString bib ords = PrettyString_entries (zip (Entries bib) ords) []"

subsection \<open>The runs of a renderer\<close>

text \<open>
  A run of a renderer on a bibliography picks, for every loop over a map, one sequence
  of visits. \<open>ranges\<close> says so for the field loops of \<open>String\<close> and \<open>RawString\<close>, one per
  entry; \<open>ranges2\<close> for the two field loops per entry of \<open>PrettyString\<close>.
\<close>

definition range_keys :: "('k \<rightharpoonup> 'v) \<Rightarrow> 'k list \<Rightarrow> bool" where
  "range_keys m keys \<longleftrightarrow> distinct keys \<and> set keys = dom m"

definition ranges :: "BibEntry list \<Rightarrow> fields_range list \<Rightarrow> bool" where
  "ranges es ords = list_all2 (\<lambda>entry kvs. range_map (Fields entry) kvs) es ords"

definition ranges2 :: "BibEntry list \<Rightarrow> (string list \<times> fields_range) list \<Rightarrow> bool" where
  "ranges2 es ords =
     list_all2 (\<lambda>entry kk. range_keys (Fields entry) (fst kk) \<and> range_map (Fields entry) (snd kk))
       es ords"

section \<open>The text a renderer writes\<close>

text \<open>
  The functions of this section describe the output; the theorems below relate them to
  the renderers. \<open>join sep xs\<close> puts \<open>sep\<close> between the strings of \<open>xs\<close>;
  \<open>switch_text\<close> is what the type switch of \<open>(*BibComposite).RawString\<close> writes for one
  element.
\<close>

fun join :: "string \<Rightarrow> string list \<Rightarrow> string" where
  "join sep [] = []"
| "join sep [x] = x"
| "join sep (x # y # ys) = x @ sep @ join sep (y # ys)"

definition switch_text :: "BibString \<Rightarrow> string" where
  "switch_text s = (case s of BibConst c \<Rightarrow> [] | _ \<Rightarrow> RawString s)"

definition is_BibConst :: "BibString \<Rightarrow> bool" where
  "is_BibConst s = (case s of BibConst c \<Rightarrow> True | _ \<Rightarrow> False)"

text \<open>The header line of an entry, and the line of a field whose value is written as \<open>txt\<close>.\<close>

definition entry_header :: "BibEntry \<Rightarrow> string" where
  "entry_header entry = ''@'' @ Type entry @ ''{'' @ CiteName entry @ '',\<newline>''"

definition field_line :: "string \<Rightarrow> string \<Rightarrow> string" where
  "field_line name txt = ''  '' @ name @ '' = '' @ txt @ '',\<newline>''"

definition padded_line :: "nat \<Rightarrow> string \<Rightarrow> string \<Rightarrow> string" where
  "padded_line n name txt =
     ''  '' @ name @ replicate (n - length name) (CHR '' '') @ '' = '' @ txt @ '',\<newline>''"

text \<open>The text of a field's value in each renderer.\<close>

definition String_value :: "BibString \<Rightarrow> string" where
  "String_value v =
     (case Atoi (TrimSpace (String v)) of
        Inr i \<Rightarrow> fmt_d i
      | Inl err \<Rightarrow> ''{'' @ TrimSpace (String v) @ ''}'')"

definition RawString_value :: "BibString \<Rightarrow> string" where
  "RawString_value v =
     (case Atoi (TrimSpace (String v)) of
        Inr i \<Rightarrow> fmt_d i
      | Inl err \<Rightarrow> RawString v)"

definition PrettyString_value :: "BibString \<Rightarrow> string" where
  "PrettyString_value v =
     (case Atoi (TrimSpace (String v)) of
        Inr i \<Rightarrow> fmt_d i
      | Inl err \<Rightarrow>
          if ContainsAny (String v) [quote, CHR ''{'', CHR ''}'']
          then ''{'' @ String v @ ''}''
          else [quote] @ String v @ [quote])"

text \<open>
  \<open>strip2\<close> drops the last two bytes. The text of one entry: in \<open>String\<close> and
  \<open>RawString\<close> the header and the field lines without their last two bytes, then the
  closing brace on a line of its own; in \<open>PrettyString\<close> the header, the field lines
  padded to \<open>n\<close>, and the closing brace.
\<close>

definition strip2 :: "string \<Rightarrow> string" where
  "strip2 t = take (length t - 2) t"

definition String_block :: "BibEntry \<times> fields_range \<Rightarrow> string" where
  "String_block r =
     strip2 (entry_header (fst r)
             @ concat (map (\<lambda>kv. field_line (fst kv) (String_value (snd kv))) (snd r)))
     @ ''\<newline>}\<newline>''"

definition RawString_block :: "BibEntry \<times> fields_range \<Rightarrow> string" where
  "RawString_block r =
     strip2 (entry_header (fst r)
             @ concat (map (\<lambda>kv. field_line (fst kv) (RawString_value (snd kv))) (snd r)))
     @ ''\<newline>}\<newline>''"

definition PrettyString_block :: "nat \<Rightarrow> BibEntry \<Rightarrow> fields_range \<Rightarrow> string" where
  "PrettyString_block n entry kvs =
     entry_header entry
     @ concat (map (\<lambda>kv. padded_line n (fst kv) (PrettyString_value (snd kv))) kvs)
     @ ''}\<newline>''"

text \<open>The length of the longest key of a map; 0 for the empty map.\<close>

definition longest :: "(string \<rightharpoonup> 'v) \<Rightarrow> nat" where
  "longest m = (if dom m = {} then 0 else Max (length ` dom m))"

text \<open>A value's text is quoted when it stands in braces or in double quotes.\<close>

definition quoted :: "string \<Rightarrow> bool" where
  "quoted t \<longleftrightarrow>
     2 \<le> length t \<and>
     ((hd t = CHR ''{'' \<and> last t = CHR ''}'') \<or> (hd t = quote \<and> last t = quote))"


section \<open>Composite strings\<close>

text \<open>
  The loops of \<open>(*BibComposite).String\<close> and \<open>(*BibComposite).RawString\<close> in closed form:
  the resolved form of a composite is the concatenation of the resolved forms of its
  elements; its raw form joins, with \<open>" # "\<close>, what the type switch writes for each
  element, which is the element's raw form unless the element is a \<open>BibConst\<close> held by
  value.
\<close>

lemma String_range_concat: "String_range xs buf = buf @ concat (map String xs)"
  by (induction xs arbitrary: buf) (simp_all add: WriteString_def)

lemma String_composite: "String (BibCompositePtr xs) = concat (map String xs)"
  by (simp add: String_range_concat)

lemma RawString_range_Suc:
  "RawString_range (Suc i) xs buf = buf @ concat (map (\<lambda>x. '' # '' @ switch_text x) xs)"
  by (induction xs arbitrary: buf i)
    (simp_all add: Let_def WriteString_def switch_text_def split: BibString.splits)

lemma join_Cons: "join sep (x # xs) = x @ concat (map (\<lambda>y. sep @ y) xs)"
  by (induction xs arbitrary: x) simp_all

lemma RawString_composite: "RawString (BibCompositePtr xs) = join '' # '' (map switch_text xs)"
proof (cases xs)
  case Nil
  then show ?thesis by simp
next
  case (Cons x rest)
  then show ?thesis
    by (simp add: Let_def RawString_range_Suc join_Cons WriteString_def switch_text_def comp_def
        split: BibString.splits)
qed

lemma String_Append: "String (BibCompositePtr (Append c s)) = String (BibCompositePtr c) @ String s"
  by (simp add: String_range_concat Append_def)

lemma switch_text_pointer: "\<not> is_BibConst s \<Longrightarrow> switch_text s = RawString s"
  by (cases s) (simp_all add: switch_text_def is_BibConst_def)

lemma RawString_composite_pointers:
  "list_all (\<lambda>s. \<not> is_BibConst s) xs \<Longrightarrow>
     RawString (BibCompositePtr xs) = join '' # '' (map RawString xs)"
proof -
  assume "list_all (\<lambda>s. \<not> is_BibConst s) xs"
  then have "map switch_text xs = map RawString xs"
    by (induction xs) (simp_all add: switch_text_pointer)
  then show ?thesis
    by (simp only: RawString_composite)
qed

text \<open>
  Claim C1: the resolved form of a composite built by appending \<open>v1, ..., vn\<close> is the
  concatenation of their resolved forms, and its raw form is their raw forms joined by
  \<open>" # "\<close>; for the composite of the reference to \<open>month\<close> (bound to the constant
  \<open>jan\<close>) and the constant \<open>-supplement\<close> the raw form is \<open>month # {-supplement}\<close>.

  The first half holds (\<open>String_composite\<close>, \<open>String_Append\<close>). The second holds for
  elements that are pointers (\<open>RawString_composite_pointers\<close>) and fails on the scenario
  as the package builds it: \<open>NewBibConst\<close> returns a \<open>BibConst\<close>, the type switch only has
  the case \<open>*BibConst\<close>, and the raw form of the composite is \<open>month # \<close>, although the
  raw form of the constant by itself is \<open>{-supplement}\<close>.
\<close>

theorem composite_RawString_drops_BibConst:
  "GetStringVar (AddStringVar NewBibTex ''month'' (NewBibConst ''jan'')) ''month''
     = Inr (BibVar ''month'' (BibConst ''jan''))
   \<and> String (BibCompositePtr
        (Append (NewBibComposite (BibVarPtr (BibVar ''month'' (BibConst ''jan''))))
           (NewBibConst ''-supplement''))) = ''jan-supplement''
   \<and> RawString (BibCompositePtr
        (Append (NewBibComposite (BibVarPtr (BibVar ''month'' (BibConst ''jan''))))
           (NewBibConst ''-supplement''))) = ''month # ''
   \<and> RawString (NewBibConst ''-supplement'') = ''{-supplement}''"
  by (simp add: GetStringVar_def AddStringVar_def NewBibTex_def NewBibConst_def Append_def
      NewBibComposite_def WriteString_def RawString_BibVar_def RawString_BibConst_def Let_def)

section \<open>The table of string variables\<close>

text \<open>
  Claim C4: \<open>GetStringVar\<close> returns the definition stored under the key when the key is
  present; when the key is absent the process exits in \<open>log.Fatalf\<close> and the call
  returns no value to its caller.
\<close>

theorem GetStringVar_present_or_fatal:
  "(StringVar bib key = Some bv \<longrightarrow> GetStringVar bib key = Inr bv)
   \<and> (StringVar bib key = None \<longrightarrow>
        GetStringVar bib key = Inl (UnknownStringVar key)
        \<and> (\<forall>v. GetStringVar bib key \<noteq> Inr v))"
  by (simp add: GetStringVar_def)

theorem GetStringVar_present_or_fatal_witness:
  "StringVar (AddStringVar NewBibTex ''month'' (NewBibConst ''jan'')) ''month''
     = Some (BibVar ''month'' (BibConst ''jan''))
   \<and> GetStringVar (AddStringVar NewBibTex ''month'' (NewBibConst ''jan'')) ''month''
     = Inr (BibVar ''month'' (BibConst ''jan''))
   \<and> StringVar (AddStringVar NewBibTex ''month'' (NewBibConst ''jan'')) ''year'' = None
   \<and> GetStringVar (AddStringVar NewBibTex ''month'' (NewBibConst ''jan'')) ''year''
     = Inl (UnknownStringVar ''year'')"
proof -
  let ?bib = "AddStringVar NewBibTex ''month'' (NewBibConst ''jan'')"
  have p: "StringVar ?bib ''month'' = Some (BibVar ''month'' (BibConst ''jan''))"
    by (simp add: AddStringVar_def NewBibTex_def NewBibConst_def)
  have a: "StringVar ?bib ''year'' = None"
    by (simp add: AddStringVar_def NewBibTex_def)
  show ?thesis
    using p a
      GetStringVar_present_or_fatal [of ?bib "''month''" "BibVar ''month'' (BibConst ''jan'')"]
      GetStringVar_present_or_fatal [of ?bib "''year''"]
    by simp
qed

text \<open>
  Claim C3, as stated: after a variable is defined again under a key that is bound, the
  resolution of every reference for that key, also of one obtained before, gives the
  resolved form of the new value. It fails for the reference obtained before:
  \<open>AddStringVar\<close> stores a new \<open>BibVar\<close> in the table and leaves the old one as it was,
  and \<open>(*BibVar).String\<close> resolves the value the \<open>BibVar\<close> holds, without a look at the
  table. Here \<open>x\<close> is bound to \<open>old\<close>, looked up, and bound to \<open>new\<close>: the reference
  looked up before still resolves to \<open>old\<close>.
\<close>

theorem old_reference_keeps_old_value:
  "GetStringVar (AddStringVar NewBibTex ''x'' (NewBibConst ''old'')) ''x''
     = Inr (BibVar ''x'' (BibConst ''old''))
   \<and> GetStringVar
        (AddStringVar (AddStringVar NewBibTex ''x'' (NewBibConst ''old'')) ''x'' (NewBibConst ''new''))
        ''x''
     = Inr (BibVar ''x'' (BibConst ''new''))
   \<and> String (BibVarPtr (BibVar ''x'' (BibConst ''old''))) = ''old''
   \<and> String (NewBibConst ''new'') = ''new''
   \<and> String (BibVarPtr (BibVar ''x'' (BibConst ''old''))) \<noteq> String (NewBibConst ''new'')"
  by (simp add: GetStringVar_def AddStringVar_def NewBibTex_def NewBibConst_def)

text \<open>
  Claim C3, amended: defining a variable under a key that is already bound replaces the
  binding in the table, with no error; from then on \<open>GetStringVar\<close> returns, for that
  key, a reference that resolves to the resolved form of the new value (and whose raw
  form is the key); the other keys, the preambles and the entries are as before. The
  reference \<open>old\<close> obtained before resolves to the value it holds, whatever the table
  binds later.
\<close>

theorem AddStringVar_replaces_binding:
  "StringVar bib key = Some old \<Longrightarrow>
     GetStringVar bib key = Inr old
     \<and> GetStringVar (AddStringVar bib key val) key = Inr (BibVar key val)
     \<and> String (BibVarPtr (BibVar key val)) = String val
     \<and> RawString (BibVarPtr (BibVar key val)) = key
     \<and> String (BibVarPtr old) = String (Value old)
     \<and> (\<forall>k. k \<noteq> key \<longrightarrow> GetStringVar (AddStringVar bib key val) k = GetStringVar bib k)
     \<and> Preambles (AddStringVar bib key val) = Preambles bib
     \<and> Entries (AddStringVar bib key val) = Entries bib"
  by (cases old) (simp add: GetStringVar_def AddStringVar_def RawString_BibVar_def)

theorem AddStringVar_replaces_binding_witness:
  "StringVar (AddStringVar NewBibTex ''x'' (NewBibConst ''old'')) ''x''
     = Some (BibVar ''x'' (BibConst ''old''))
   \<and> GetStringVar
        (AddStringVar (AddStringVar NewBibTex ''x'' (NewBibConst ''old'')) ''x'' (NewBibConst ''new''))
        ''x''
     = Inr (BibVar ''x'' (NewBibConst ''new''))
   \<and> String (BibVarPtr (BibVar ''x'' (NewBibConst ''new''))) = ''new''"
proof -
  let ?bib = "AddStringVar NewBibTex ''x'' (NewBibConst ''old'')"
  have p: "StringVar ?bib ''x'' = Some (BibVar ''x'' (BibConst ''old''))"
    by (simp add: AddStringVar_def NewBibTex_def NewBibConst_def)
  show ?thesis
    using p AddStringVar_replaces_binding [OF p, of "NewBibConst ''new''"]
    by (simp add: NewBibConst_def)
qed

section \<open>The renderers in closed form\<close>

text \<open>
  The loops of the three renderers, as the concatenation of the lines they write. No
  call of \<open>Truncate\<close> is out of range, since the header of the entry is in the buffer
  when it is called; no call of \<open>strings.Repeat\<close> has a negative count when the two
  loops of \<open>PrettyString\<close> range over the same map.
\<close>

lemma String_fields_concat:
  "String_fields kvs b = b @ concat (map (\<lambda>kv. field_line (fst kv) (String_value (snd kv))) kvs)"
  by (induction kvs arbitrary: b)
    (simp_all add: String_field_def WriteString_def String_value_def field_line_def
      split: sum.splits prod.splits)

lemma RawString_fields_concat:
  "RawString_fields kvs b = b @ concat (map (\<lambda>kv. field_line (fst kv) (RawString_value (snd kv))) kvs)"
  by (induction kvs arbitrary: b)
    (simp_all add: RawString_field_def WriteString_def RawString_value_def field_line_def
      split: sum.splits prod.splits)

lemma Truncate_strip2:
  assumes "2 \<le> length t"
  shows "Truncate (b @ t) (Len (b @ t) - 2) = Inr (b @ strip2 t)"
proof -
  have n: "nat (Len (b @ t) - 2) = length b + (length t - 2)"
    using assms by (simp add: Len_def)
  have "\<not> (Len (b @ t) - 2 < 0 \<or> Len (b @ t) - 2 > Len (b @ t))"
    using assms by (simp add: Len_def)
  then show ?thesis
    by (simp add: Truncate_def n strip2_def)
qed

lemma entry_header_length: "2 \<le> length (entry_header entry @ t)"
  by (simp add: entry_header_def)

lemma String_entries_blocks:
  "String_entries run b = Inr (b @ concat (map String_block run))"
proof (induction run arbitrary: b)
  case Nil
  then show ?case by simp
next
  case (Cons r run)
  obtain entry kvs where r: "r = (entry, kvs)" by (cases r)
  let ?t = "entry_header entry @ concat (map (\<lambda>kv. field_line (fst kv) (String_value (snd kv))) kvs)"
  have w: "String_fields kvs (WriteString b (''@'' @ Type entry @ ''{'' @ CiteName entry @ '',\<newline>'')) = b @ ?t"
    by (simp add: String_fields_concat WriteString_def entry_header_def)
  have blk: "String_block r = strip2 ?t @ ''\<newline>}\<newline>''"
    by (simp add: String_block_def r)
  have "String_entries (r # run) b =
      (case Truncate (b @ ?t) (Len (b @ ?t) - 2) of
         Inl p \<Rightarrow> Inl p
       | Inr b3 \<Rightarrow> String_entries run (WriteString b3 ''\<newline>}\<newline>''))"
    by (simp only: r String_entries.simps Let_def w)
  also have "\<dots> = String_entries run (WriteString (b @ strip2 ?t) ''\<newline>}\<newline>'')"
    by (simp only: Truncate_strip2 [OF entry_header_length] sum.case)
  also have "\<dots> = Inr (b @ concat (map String_block (r # run)))"
    using blk by (simp add: Cons.IH WriteString_def)
  finally show ?case .
qed

lemma RawString_entries_blocks:
  "RawString_entries run b = Inr (b @ concat (map RawString_block run))"
proof (induction run arbitrary: b)
  case Nil
  then show ?case by simp
next
  case (Cons r run)
  obtain entry kvs where r: "r = (entry, kvs)" by (cases r)
  let ?t = "entry_header entry @ concat (map (\<lambda>kv. field_line (fst kv) (RawString_value (snd kv))) kvs)"
  have w: "RawString_fields kvs (WriteString b (''@'' @ Type entry @ ''{'' @ CiteName entry @ '',\<newline>'')) = b @ ?t"
    by (simp add: RawString_fields_concat WriteString_def entry_header_def)
  have blk: "RawString_block r = strip2 ?t @ ''\<newline>}\<newline>''"
    by (simp add: RawString_block_def r)
  have "RawString_entries (r # run) b =
      (case Truncate (b @ ?t) (Len (b @ ?t) - 2) of
         Inl p \<Rightarrow> Inl p
       | Inr b3 \<Rightarrow> RawString_entries run (WriteString b3 ''\<newline>}\<newline>''))"
    by (simp only: r RawString_entries.simps Let_def w)
  also have "\<dots> = RawString_entries run (WriteString (b @ strip2 ?t) ''\<newline>}\<newline>'')"
    by (simp only: Truncate_strip2 [OF entry_header_length] sum.case)
  also have "\<dots> = Inr (b @ concat (map RawString_block (r # run)))"
    using blk by (simp add: Cons.IH WriteString_def)
  finally show ?case .
qed



lemma Repeat_space: "0 \<le> n \<Longrightarrow> Repeat '' '' n = Inr (replicate (nat n) (CHR '' ''))"
proof -
  have "concat (replicate k '' '') = replicate k (CHR '' '')" for k
    by (induction k) simp_all
  then show "0 \<le> n \<Longrightarrow> Repeat '' '' n = Inr (replicate (nat n) (CHR '' ''))"
    by (simp add: Repeat_def)
qed

lemma PrettyString_field_line:
  assumes "length key \<le> n"
  shows "PrettyString_field (int n) b (key, val) =
           Inr (b @ padded_line n key (PrettyString_value val))"
proof -
  have "Repeat '' '' (int n - int (length key)) = Inr (replicate (n - length key) (CHR '' ''))"
    using assms Repeat_space [of "int n - int (length key)"] by (simp add: nat_diff_distrib')
  then show ?thesis
    by (simp add: PrettyString_field_def PrettyString_value_def padded_line_def WriteString_def
        split: sum.splits)
qed

lemma PrettyString_fields_concat:
  "list_all (\<lambda>kv. length (fst kv) \<le> n) kvs \<Longrightarrow>
     PrettyString_fields (int n) kvs b =
       Inr (b @ concat (map (\<lambda>kv. padded_line n (fst kv) (PrettyString_value (snd kv))) kvs))"
proof (induction kvs arbitrary: b)
  case Nil
  then show ?case by simp
next
  case (Cons kv kvs)
  obtain key val where kv: "kv = (key, val)" by (cases kv)
  from Cons.prems have "length key \<le> n" and rest: "list_all (\<lambda>kv. length (fst kv) \<le> n) kvs"
    by (simp_all add: kv)
  then show ?case
    by (simp add: kv PrettyString_field_line Cons.IH)
qed

lemma keylen_range_Max:
  "keylen_range keys k = Max (insert k (set (map (\<lambda>key. int (length key)) keys)))"
proof (induction keys arbitrary: k)
  case Nil
  then show ?case by simp
next
  case (Cons key keys)
  let ?S = "set (map (\<lambda>key. int (length key)) keys)"
  have i: "(if int (length key) > k then int (length key) else k) = max k (int (length key))"
    by (simp add: max_def)
  have "Max (insert (max k (int (length key))) ?S) = Max (insert k (insert (int (length key)) ?S))"
    by (cases "?S = {}") (simp_all add: max.assoc)
  then show ?case
    by (simp only: keylen_range.simps Cons.IH i list.map list.set)
qed

lemma keylen_range_longest:
  assumes "range_keys m keys"
  shows "keylen_range keys 0 = int (longest m)"
proof (cases "dom m = {}")
  case True
  with assms show ?thesis by (simp add: range_keys_def longest_def)
next
  case False
  from assms have d: "set keys = dom m" by (simp add: range_keys_def)
  then have fin: "finite (dom m)" by (metis List.finite_set)
  have ne: "length ` dom m \<noteq> {}" using False by simp
  have "Max (insert 0 (set (map (\<lambda>key. int (length key)) keys)))
      = Max (insert 0 (int ` length ` dom m))"
    by (simp add: d image_image)
  also have "\<dots> = max 0 (Max (int ` length ` dom m))"
    using fin ne by (simp add: Max_insert)
  also have "\<dots> = Max (int ` length ` dom m)"
    using fin ne by (simp add: max_def Max_ge_iff)
  also have "\<dots> = int (Max (length ` dom m))"
    using fin ne by (simp add: mono_Max_commute [symmetric] mono_def)
  finally show ?thesis
    using False by (simp add: keylen_range_Max longest_def)
qed

lemma range_map_length_le_longest:
  assumes "range_map m kvs" and "kv \<in> set kvs"
  shows "length (fst kv) \<le> longest m"
proof -
  have "fst kv \<in> dom (map_of kvs)"
    using assms(2) by (metis domIff fst_conv image_eqI map_of_eq_None_iff)
  then have k: "fst kv \<in> dom m" using assms(1) by (simp add: range_map_def)
  have "finite (dom (map_of kvs))" by (rule finite_dom_map_of)
  then have fin: "finite (dom m)" using assms(1) by (simp add: range_map_def)
  show ?thesis
    using k fin by (auto simp: longest_def)
qed

lemma PrettyString_entries_blocks:
  assumes "ranges2 es ords"
  shows "PrettyString_entries (zip es ords) b =
           Inr (b @ concat (map (\<lambda>r. PrettyString_block (longest (Fields (fst r))) (fst r) (snd (snd r)))
                              (zip es ords)))"
  using assms unfolding ranges2_def
proof (induction arbitrary: b rule: list_all2_induct)
  case Nil
  then show ?case by simp
next
  case (Cons entry es kk ords)
  obtain keys kvs where kk: "kk = (keys, kvs)" by (cases kk)
  let ?n = "longest (Fields entry)"
  from Cons.hyps(1) have rk: "range_keys (Fields entry) keys" and rm: "range_map (Fields entry) kvs"
    by (simp_all add: kk)
  have kl: "keylen_range keys 0 = int ?n"
    by (rule keylen_range_longest [OF rk])
  have "list_all (\<lambda>kv. length (fst kv) \<le> ?n) kvs"
    using range_map_length_le_longest [OF rm] by (simp add: list_all_iff)
  then have f: "PrettyString_fields (int ?n) kvs c =
      Inr (c @ concat (map (\<lambda>kv. padded_line ?n (fst kv) (PrettyString_value (snd kv))) kvs))" for c
    by (rule PrettyString_fields_concat)
  show ?case
    by (simp add: kk Let_def kl f Cons.IH WriteString_def PrettyString_block_def entry_header_def)
qed

lemma strip2_two: "strip2 (s @ [a, b]) = s"
  by (simp add: strip2_def)

lemma String_block_no_fields:
  "String_block (entry, []) = ''@'' @ Type entry @ ''{'' @ CiteName entry @ ''\<newline>}\<newline>''"
proof -
  have "strip2 ((''@'' @ Type entry @ ''{'' @ CiteName entry) @ '',\<newline>'')
      = ''@'' @ Type entry @ ''{'' @ CiteName entry"
    by (rule strip2_two)
  then show ?thesis
    by (simp add: String_block_def entry_header_def)
qed

lemma strip2_lines:
  assumes "kvs \<noteq> []"
  shows "strip2 (h @ concat (map (\<lambda>kv. field_line (fst kv) (f (snd kv))) kvs))
       = h @ concat (map (\<lambda>kv. field_line (fst kv) (f (snd kv))) (butlast kvs))
           @ ''  '' @ fst (last kvs) @ '' = '' @ f (snd (last kvs))"
proof -
  let ?line = "\<lambda>kv. field_line (fst kv) (f (snd kv))"
  let ?pre = "h @ concat (map ?line (butlast kvs)) @ ''  '' @ fst (last kvs) @ '' = '' @ f (snd (last kvs))"
  have "kvs = butlast kvs @ [last kvs]" using assms by simp
  then have "concat (map ?line kvs) = concat (map ?line (butlast kvs)) @ ?line (last kvs)"
    by (metis (no_types, lifting) append_Nil2 concat.simps(1) concat.simps(2) concat_append
        list.simps(8) list.simps(9) map_append)
  then have "h @ concat (map ?line kvs) = ?pre @ '',\<newline>''"
    by (simp add: field_line_def)
  then have "strip2 (h @ concat (map ?line kvs)) = strip2 (?pre @ '',\<newline>'')"
    by (simp only:)
  also have "\<dots> = ?pre"
    by (rule strip2_two)
  finally show ?thesis .
qed

lemma String_block_fields:
  assumes "kvs \<noteq> []"
  shows "String_block (entry, kvs) =
           entry_header entry
           @ concat (map (\<lambda>kv. field_line (fst kv) (String_value (snd kv))) (butlast kvs))
           @ ''  '' @ fst (last kvs) @ '' = '' @ String_value (snd (last kvs)) @ ''\<newline>}\<newline>''"
  using strip2_lines [OF assms, of "entry_header entry" String_value]
  by (simp add: String_block_def)

lemma RawString_block_fields:
  assumes "kvs \<noteq> []"
  shows "RawString_block (entry, kvs) =
           entry_header entry
           @ concat (map (\<lambda>kv. field_line (fst kv) (RawString_value (snd kv))) (butlast kvs))
           @ ''  '' @ fst (last kvs) @ '' = '' @ RawString_value (snd (last kvs)) @ ''\<newline>}\<newline>''"
  using strip2_lines [OF assms, of "entry_header entry" RawString_value]
  by (simp add: RawString_block_def)

section \<open>\<open>String\<close>: the simplified form\<close>

text \<open>
  Claim C5, as stated: \<open>String\<close> writes for each entry, in the order of insertion, the
  header line \<open>@type{citekey,\<close>, one line \<open>  name = value\<close> per field, and the closing
  brace, the comma of the last field being stripped. It fails on an entry without
  fields: \<open>Truncate(Len() - 2)\<close> then strips the comma and the line end of the header
  itself, and the header line is \<open>@misc{k\<close>, not \<open>@misc{k,\<close>.
\<close>

theorem String_BibTex_entry_without_fields:
  "ranges (Entries (AddEntry NewBibTex \<lparr>Type = ''misc'', CiteName = ''k'', Fields = Map.empty\<rparr>)) [[]]
   \<and> String_BibTex (AddEntry NewBibTex \<lparr>Type = ''misc'', CiteName = ''k'', Fields = Map.empty\<rparr>) [[]]
      = Inr ''@misc{k\<newline>}\<newline>''
   \<and> \<not> prefix ''@misc{k,'' ''@misc{k\<newline>}\<newline>''"
proof -
  have "ranges (Entries (AddEntry NewBibTex \<lparr>Type = ''misc'', CiteName = ''k'', Fields = Map.empty\<rparr>)) [[]]"
    by (simp add: ranges_def range_map_def AddEntry_def NewBibTex_def)
  moreover have "String_BibTex (AddEntry NewBibTex \<lparr>Type = ''misc'', CiteName = ''k'', Fields = Map.empty\<rparr>) [[]]
      = Inr ''@misc{k\<newline>}\<newline>''"
    by code_simp
  moreover have "\<not> prefix ''@misc{k,'' ''@misc{k\<newline>}\<newline>''"
    by simp
  ultimately show ?thesis by blast
qed

text \<open>
  Claim C5, amended: \<open>String\<close> writes for each entry, in the order of insertion, the
  header line \<open>@type{citekey,\<close> and one line \<open>  name = value,\<close> per field, strips the last
  two bytes written (the comma and line end of the last field, or of the header when the
  entry has no field) and closes the entry with \<open>}\<close> on a line of its own. The witness is
  the bibliography with the one entry \<open>@article{doe2020, title = {Hello}}\<close>.
\<close>

theorem String_BibTex_entries:
  assumes "ranges (Entries bib) ords"
  shows "String_BibTex bib ords = Inr (concat (map String_block (zip (Entries bib) ords)))
       \<and> String_block (entry, kv # kvs) =
           entry_header entry
           @ concat (map (\<lambda>kv. field_line (fst kv) (String_value (snd kv))) (butlast (kv # kvs)))
           @ ''  '' @ fst (last (kv # kvs)) @ '' = '' @ String_value (snd (last (kv # kvs)))
           @ ''\<newline>}\<newline>''
       \<and> String_block (entry, []) = ''@'' @ Type entry @ ''{'' @ CiteName entry @ ''\<newline>}\<newline>''"
proof -
  have "String_BibTex bib ords = Inr (concat (map String_block (zip (Entries bib) ords)))"
    by (simp add: String_BibTex_def String_entries_blocks)
  moreover have "kv # kvs \<noteq> []" by simp
  ultimately show ?thesis
    by (simp only: String_block_fields String_block_no_fields simp_thms)
qed

lemma TrimSpace_title: "TrimSpace ''title'' = ''title''"
  by code_simp

theorem String_BibTex_entries_witness:
  "ranges
     (Entries (AddEntry NewBibTex
        (AddField \<lparr>Type = ''article'', CiteName = ''doe2020'', Fields = Map.empty\<rparr>
           ''title'' (NewBibConst ''Hello''))))
     [[(''title'', BibConst ''Hello'')]]
   \<and> String_BibTex
        (AddEntry NewBibTex
           (AddField \<lparr>Type = ''article'', CiteName = ''doe2020'', Fields = Map.empty\<rparr>
              ''title'' (NewBibConst ''Hello'')))
        [[(''title'', BibConst ''Hello'')]]
      = Inr ''@article{doe2020,\<newline>  title = {Hello}\<newline>}\<newline>''"
proof -
  let ?entry = "AddField \<lparr>Type = ''article'', CiteName = ''doe2020'', Fields = Map.empty\<rparr>
                  ''title'' (NewBibConst ''Hello'')"
  let ?bib = "AddEntry NewBibTex ?entry"
  let ?ords = "[[(''title'', BibConst ''Hello'')]]"
  have r: "ranges (Entries ?bib) ?ords"
    by (simp add: ranges_def range_map_def AddEntry_def NewBibTex_def AddField_def
        NewBibConst_def TrimSpace_title)
  have "String_BibTex ?bib ?ords = Inr (concat (map String_block (zip (Entries ?bib) ?ords)))"
    using String_BibTex_entries [OF r] by blast
  also have "\<dots> = Inr ''@article{doe2020,\<newline>  title = {Hello}\<newline>}\<newline>''"
    by code_simp
  finally show ?thesis
    using r by blast
qed

lemma String_block_closes: "suffix ''\<newline>}\<newline>'' (String_block r)"
  by (simp add: String_block_def suffix_def)

lemma String_block_opens:
  "prefix (''@'' @ Type entry @ ''{'' @ CiteName entry) (String_block (entry, kvs))"
proof (cases kvs)
  case Nil
  then show ?thesis
    by (simp only: String_block_no_fields) (simp add: prefix_def)
next
  case (Cons kv rest)
  then have ne: "kvs \<noteq> []" by simp
  show ?thesis
    by (simp only: String_block_fields [OF ne] entry_header_def) (simp add: prefix_def)
qed

text \<open>
  Claim C6, as stated: \<open>String\<close> separates two consecutive entries by a blank line. It
  fails: the output for two entries has no empty line at all.
\<close>

theorem String_BibTex_no_blank_line:
  "ranges
     (Entries (AddEntry (AddEntry NewBibTex
        \<lparr>Type = ''article'', CiteName = ''a'', Fields = [''title'' \<mapsto> BibConst ''A'']\<rparr>)
        \<lparr>Type = ''book'', CiteName = ''b'', Fields = [''title'' \<mapsto> BibConst ''B'']\<rparr>))
     [[(''title'', BibConst ''A'')], [(''title'', BibConst ''B'')]]
   \<and> String_BibTex (AddEntry (AddEntry NewBibTex
          \<lparr>Type = ''article'', CiteName = ''a'', Fields = [''title'' \<mapsto> BibConst ''A'']\<rparr>)
          \<lparr>Type = ''book'', CiteName = ''b'', Fields = [''title'' \<mapsto> BibConst ''B'']\<rparr>)
       [[(''title'', BibConst ''A'')], [(''title'', BibConst ''B'')]]
     = Inr ''@article{a,\<newline>  title = {A}\<newline>}\<newline>@book{b,\<newline>  title = {B}\<newline>}\<newline>''
   \<and> \<not> sublist ''\<newline>\<newline>''
         ''@article{a,\<newline>  title = {A}\<newline>}\<newline>@book{b,\<newline>  title = {B}\<newline>}\<newline>''"
proof -
  let ?e1 = "\<lparr>Type = ''article'', CiteName = ''a'', Fields = [''title'' \<mapsto> BibConst ''A'']\<rparr>"
  let ?e2 = "\<lparr>Type = ''book'', CiteName = ''b'', Fields = [''title'' \<mapsto> BibConst ''B'']\<rparr>"
  let ?bib = "AddEntry (AddEntry NewBibTex ?e1) ?e2"
  let ?ords = "[[(''title'', BibConst ''A'')], [(''title'', BibConst ''B'')]]"
  have "ranges (Entries ?bib) ?ords"
    by (simp add: ranges_def range_map_def AddEntry_def NewBibTex_def)
  moreover have "String_BibTex ?bib ?ords
      = Inr ''@article{a,\<newline>  title = {A}\<newline>}\<newline>@book{b,\<newline>  title = {B}\<newline>}\<newline>''"
    by code_simp
  moreover have "\<not> sublist ''\<newline>\<newline>''
         ''@article{a,\<newline>  title = {A}\<newline>}\<newline>@book{b,\<newline>  title = {B}\<newline>}\<newline>''"
    by code_simp
  ultimately show ?thesis by blast
qed

text \<open>
  Claim C6, amended: \<open>String\<close> writes consecutive entries one right after the other: the
  line \<open>}\<close> that closes an entry is followed at once by the header \<open>@type{citekey\<close> of the
  next one, with no blank line between them.
\<close>

theorem String_BibTex_entries_adjacent:
  assumes "ranges (Entries bib) ords"
    and "zip (Entries bib) ords = before @ [(e1, kvs1), (e2, kvs2)] @ rest"
  shows "String_BibTex bib ords =
           Inr (concat (map String_block before)
                @ String_block (e1, kvs1) @ String_block (e2, kvs2)
                @ concat (map String_block rest))
       \<and> suffix ''\<newline>}\<newline>'' (String_block (e1, kvs1))
       \<and> prefix (''@'' @ Type e2 @ ''{'' @ CiteName e2) (String_block (e2, kvs2))"
proof -
  have "String_BibTex bib ords =
      Inr (concat (map String_block (before @ [(e1, kvs1), (e2, kvs2)] @ rest)))"
    by (simp only: String_BibTex_def String_entries_blocks assms(2) append_Nil)
  then have "String_BibTex bib ords =
           Inr (concat (map String_block before)
                @ String_block (e1, kvs1) @ String_block (e2, kvs2)
                @ concat (map String_block rest))"
    by simp
  then show ?thesis
    using String_block_closes [of "(e1, kvs1)"] String_block_opens [of e2 kvs2] by blast
qed

theorem String_BibTex_entries_adjacent_witness:
  "ranges (Entries (AddEntry (AddEntry NewBibTex
          \<lparr>Type = ''article'', CiteName = ''a'', Fields = [''title'' \<mapsto> BibConst ''A'']\<rparr>)
          \<lparr>Type = ''book'', CiteName = ''b'', Fields = [''title'' \<mapsto> BibConst ''B'']\<rparr>))
       [[(''title'', BibConst ''A'')], [(''title'', BibConst ''B'')]]
   \<and> zip (Entries (AddEntry (AddEntry NewBibTex
          \<lparr>Type = ''article'', CiteName = ''a'', Fields = [''title'' \<mapsto> BibConst ''A'']\<rparr>)
          \<lparr>Type = ''book'', CiteName = ''b'', Fields = [''title'' \<mapsto> BibConst ''B'']\<rparr>))
       [[(''title'', BibConst ''A'')], [(''title'', BibConst ''B'')]]
     = [] @ [(\<lparr>Type = ''article'', CiteName = ''a'', Fields = [''title'' \<mapsto> BibConst ''A'']\<rparr>,
              [(''title'', BibConst ''A'')]),
             (\<lparr>Type = ''book'', CiteName = ''b'', Fields = [''title'' \<mapsto> BibConst ''B'']\<rparr>,
              [(''title'', BibConst ''B'')])] @ []
   \<and> String_BibTex (AddEntry (AddEntry NewBibTex
          \<lparr>Type = ''article'', CiteName = ''a'', Fields = [''title'' \<mapsto> BibConst ''A'']\<rparr>)
          \<lparr>Type = ''book'', CiteName = ''b'', Fields = [''title'' \<mapsto> BibConst ''B'']\<rparr>)
       [[(''title'', BibConst ''A'')], [(''title'', BibConst ''B'')]]
     = Inr (''@article{a,\<newline>  title = {A}\<newline>}\<newline>'' @ ''@book{b,\<newline>  title = {B}\<newline>}\<newline>'')"
proof -
  let ?e1 = "\<lparr>Type = ''article'', CiteName = ''a'', Fields = [''title'' \<mapsto> BibConst ''A'']\<rparr>"
  let ?e2 = "\<lparr>Type = ''book'', CiteName = ''b'', Fields = [''title'' \<mapsto> BibConst ''B'']\<rparr>"
  let ?bib = "AddEntry (AddEntry NewBibTex ?e1) ?e2"
  let ?ords = "[[(''title'', BibConst ''A'')], [(''title'', BibConst ''B'')]]"
  have r: "ranges (Entries ?bib) ?ords"
    by (simp add: ranges_def range_map_def AddEntry_def NewBibTex_def)
  have z: "zip (Entries ?bib) ?ords
      = [] @ [(?e1, [(''title'', BibConst ''A'')]), (?e2, [(''title'', BibConst ''B'')])] @ []"
    by (simp add: AddEntry_def NewBibTex_def)
  have b1: "String_block (?e1, [(''title'', BibConst ''A'')]) = ''@article{a,\<newline>  title = {A}\<newline>}\<newline>''"
    by code_simp
  have b2: "String_block (?e2, [(''title'', BibConst ''B'')]) = ''@book{b,\<newline>  title = {B}\<newline>}\<newline>''"
    by code_simp
  have "String_BibTex ?bib ?ords =
      Inr (concat (map String_block [])
           @ String_block (?e1, [(''title'', BibConst ''A'')])
           @ String_block (?e2, [(''title'', BibConst ''B'')])
           @ concat (map String_block []))"
    using String_BibTex_entries_adjacent [OF r z] by blast
  then have "String_BibTex ?bib ?ords
      = Inr (''@article{a,\<newline>  title = {A}\<newline>}\<newline>'' @ ''@book{b,\<newline>  title = {B}\<newline>}\<newline>'')"
    by (simp only: b1 b2 list.map concat.simps append_Nil append_Nil2)
  with r z show ?thesis by blast
qed

section \<open>Field values: integers and text\<close>

lemma quoted_braces: "quoted (''{'' @ s @ ''}'')"
  by (simp add: quoted_def)

lemma quoted_quotes: "quoted ([quote] @ s @ [quote])"
  by (simp add: quoted_def)

text \<open>
  Claim C7, as stated: in all three renderers a field whose resolved text, trimmed, is
  the decimal form of an integer is written as that integer, without quotes, and every
  other field as quoted string text, the failed parse raising no error. The second part
  fails in \<open>RawString\<close>, which writes the raw form of the value: for a field that is a
  reference to the variable \<open>month\<close> the text written is the bare key \<open>month\<close>.
\<close>

theorem RawString_field_reference_unquoted:
  "Atoi (TrimSpace (String (BibVarPtr (BibVar ''month'' (BibConst ''jan''))))) = Inl NumError
   \<and> RawString_field [] (''month'', BibVarPtr (BibVar ''month'' (BibConst ''jan'')))
       = ''  month = month,\<newline>''
   \<and> RawString_BibTex
        (AddEntry (AddStringVar NewBibTex ''month'' (NewBibConst ''jan''))
           \<lparr>Type = ''article'', CiteName = ''doe2020'',
            Fields = [''month'' \<mapsto> BibVarPtr (BibVar ''month'' (BibConst ''jan''))]\<rparr>)
        [(''month'', BibVar ''month'' (BibConst ''jan''))]
        [[(''month'', BibVarPtr (BibVar ''month'' (BibConst ''jan'')))]]
       = Inr ''@string{month = {jan}}\<newline>@article{doe2020,\<newline>  month = month\<newline>}\<newline>''
   \<and> \<not> quoted (RawString (BibVarPtr (BibVar ''month'' (BibConst ''jan''))))"
proof -
  have "Atoi (TrimSpace (String (BibVarPtr (BibVar ''month'' (BibConst ''jan''))))) = Inl NumError"
    by code_simp
  moreover have "RawString_field [] (''month'', BibVarPtr (BibVar ''month'' (BibConst ''jan'')))
       = ''  month = month,\<newline>''"
    by code_simp
  moreover have "RawString_BibTex
        (AddEntry (AddStringVar NewBibTex ''month'' (NewBibConst ''jan''))
           \<lparr>Type = ''article'', CiteName = ''doe2020'',
            Fields = [''month'' \<mapsto> BibVarPtr (BibVar ''month'' (BibConst ''jan''))]\<rparr>)
        [(''month'', BibVar ''month'' (BibConst ''jan''))]
        [[(''month'', BibVarPtr (BibVar ''month'' (BibConst ''jan'')))]]
       = Inr ''@string{month = {jan}}\<newline>@article{doe2020,\<newline>  month = month\<newline>}\<newline>''"
    by code_simp
  moreover have "\<not> quoted (RawString (BibVarPtr (BibVar ''month'' (BibConst ''jan''))))"
    by (simp add: quoted_def quote_def RawString_BibVar_def)
  ultimately show ?thesis by blast
qed

text \<open>
  Claim C7, amended: in all three renderers a field whose resolved text, trimmed, is the
  decimal form of an integer is written as that integer, without quotes. Every other
  field is written with no error raised: by \<open>String\<close> as its trimmed resolved text in
  braces, by \<open>PrettyString\<close> as its resolved text in braces or in double quotes, so as
  quoted text by both, and by \<open>RawString\<close> as its raw form. The theorem is about the body
  of the loop over the fields in each renderer, for any buffer \<open>b\<close> and, in
  \<open>PrettyString\<close>, any width \<open>n\<close> the key fits in.
\<close>

theorem field_value_integer_or_text:
  "(Atoi (TrimSpace (String val)) = Inr i \<longrightarrow>
      String_field b (key, val) = b @ field_line key (fmt_d i)
    \<and> RawString_field b (key, val) = b @ field_line key (fmt_d i)
    \<and> (length key \<le> n \<longrightarrow>
         PrettyString_field (int n) b (key, val) = Inr (b @ padded_line n key (fmt_d i))))
   \<and> (Atoi (TrimSpace (String val)) = Inl err \<longrightarrow>
      String_field b (key, val) = b @ field_line key (''{'' @ TrimSpace (String val) @ ''}'')
    \<and> RawString_field b (key, val) = b @ field_line key (RawString val)
    \<and> (length key \<le> n \<longrightarrow>
         PrettyString_field (int n) b (key, val)
           = Inr (b @ padded_line n key
                        (if ContainsAny (String val) [quote, CHR ''{'', CHR ''}'']
                         then ''{'' @ String val @ ''}''
                         else [quote] @ String val @ [quote])))
    \<and> quoted (String_value val) \<and> quoted (PrettyString_value val))"
proof -
  have s: "String_field b (key, val) = b @ field_line key (String_value val)"
    by (simp add: String_field_def String_value_def field_line_def WriteString_def split: sum.splits)
  have r: "RawString_field b (key, val) = b @ field_line key (RawString_value val)"
    by (simp add: RawString_field_def RawString_value_def field_line_def WriteString_def
        split: sum.splits)
  have p: "length key \<le> n \<Longrightarrow>
      PrettyString_field (int n) b (key, val) = Inr (b @ padded_line n key (PrettyString_value val))"
    by (rule PrettyString_field_line)
  show ?thesis
    using s r p
    by (auto simp add: String_value_def RawString_value_def PrettyString_value_def
        quoted_braces quoted_quotes simp del: append.simps)
qed

theorem field_value_integer_or_text_witness:
  "Atoi (TrimSpace (String (BibConst '' 42 ''))) = Inr 42
   \<and> String_field [] (''year'', BibConst '' 42 '') = ''  year = 42,\<newline>''
   \<and> RawString_field [] (''year'', BibConst '' 42 '') = ''  year = 42,\<newline>''
   \<and> PrettyString_field 5 [] (''year'', BibConst '' 42 '') = Inr ''  year  = 42,\<newline>''
   \<and> Atoi (TrimSpace (String (BibConst ''42a''))) = Inl NumError
   \<and> String_field [] (''year'', BibConst ''42a'') = ''  year = {42a},\<newline>''
   \<and> RawString_field [] (''year'', BibConst ''42a'') = ''  year = {42a},\<newline>''
   \<and> PrettyString_field 5 [] (''year'', BibConst ''42a'')
       = Inr (''  year  = '' @ [quote] @ ''42a'' @ [quote] @ '',\<newline>'')"
proof -
  have a: "Atoi (TrimSpace '' 42 '') = Inr 42"
    by code_simp
  have b: "Atoi ''42a'' = Inl NumError"
    by code_simp
  have f: "fmt_d 42 = ''42''" by code_simp
  have t: "TrimSpace ''42a'' = ''42a''" by code_simp
  have c: "\<not> ContainsAny ''42a'' [quote, CHR ''{'', CHR ''}'']"
    by code_simp
  show ?thesis
    using field_value_integer_or_text [of "BibConst '' 42 ''" 42 "[]" "''year''" 5 NumError]
      field_value_integer_or_text [of "BibConst ''42a''" 0 "[]" "''year''" 5 NumError]
    by (simp add: a b f t c field_line_def padded_line_def RawString_BibConst_def)
qed

section \<open>\<open>RawString\<close>: the raw form\<close>




section \<open>\<open>PrettyString\<close>: the aligned form\<close>

text \<open>
  Claim C9: in \<open>PrettyString\<close> every field name of an entry is padded on the right with
  spaces to the length of the longest field name of the entry, so that the \<open>=\<close> signs
  stand in one column (second conjunct: the text before \<open>" = "\<close> has the same length
  on every line of the entry); a value that is no integer is written in braces when its
  resolved text has a double quote, \<open>{\<close> or \<open>}\<close>, and in double quotes otherwise;
  integers are written bare. Lengths are counted in bytes, as \<open>len\<close> does.
\<close>

theorem PrettyString_aligned_and_quoted:
  assumes "ranges2 (Entries bib) ords"
  shows "PrettyString bib ords =
           Inr (concat (map (\<lambda>r. entry_header (fst r)
                              @ concat (map (\<lambda>kv. ''  '' @ fst kv
                                              @ replicate (longest (Fields (fst r)) - length (fst kv)) (CHR '' '')
                                              @ '' = ''
                                              @ (case Atoi (TrimSpace (String (snd kv))) of
                                                   Inr i \<Rightarrow> fmt_d i
                                                 | Inl err \<Rightarrow>
                                                     if ContainsAny (String (snd kv)) [quote, CHR ''{'', CHR ''}'']
                                                     then ''{'' @ String (snd kv) @ ''}''
                                                     else [quote] @ String (snd kv) @ [quote])
                                              @ '',\<newline>'')
                                          (snd (snd r)))
                              @ ''}\<newline>'')
                        (zip (Entries bib) ords)))
       \<and> list_all (\<lambda>r. list_all (\<lambda>kv.
              length (''  '' @ fst kv @ replicate (longest (Fields (fst r)) - length (fst kv)) (CHR '' ''))
                = 2 + longest (Fields (fst r)))
            (snd (snd r)))
          (zip (Entries bib) ords)"
proof -
  have pb: "(\<lambda>r. PrettyString_block (longest (Fields (fst r))) (fst r) (snd (snd r)))
      = (\<lambda>r. entry_header (fst r)
                              @ concat (map (\<lambda>kv. ''  '' @ fst kv
                                              @ replicate (longest (Fields (fst r)) - length (fst kv)) (CHR '' '')
                                              @ '' = ''
                                              @ (case Atoi (TrimSpace (String (snd kv))) of
                                                   Inr i \<Rightarrow> fmt_d i
                                                 | Inl err \<Rightarrow>
                                                     if ContainsAny (String (snd kv)) [quote, CHR ''{'', CHR ''}'']
                                                     then ''{'' @ String (snd kv) @ ''}''
                                                     else [quote] @ String (snd kv) @ [quote])
                                              @ '',\<newline>'')
                                          (snd (snd r)))
                              @ ''}\<newline>'')"
    by (rule ext) (simp add: PrettyString_block_def padded_line_def PrettyString_value_def)
  have "PrettyString bib ords =
      Inr (concat (map (\<lambda>r. PrettyString_block (longest (Fields (fst r))) (fst r) (snd (snd r)))
                     (zip (Entries bib) ords)))"
    using PrettyString_entries_blocks [OF assms, of "[]"] by (simp add: PrettyString_def)
  then have out: "PrettyString bib ords =
           Inr (concat (map (\<lambda>r. entry_header (fst r)
                              @ concat (map (\<lambda>kv. ''  '' @ fst kv
                                              @ replicate (longest (Fields (fst r)) - length (fst kv)) (CHR '' '')
                                              @ '' = ''
                                              @ (case Atoi (TrimSpace (String (snd kv))) of
                                                   Inr i \<Rightarrow> fmt_d i
                                                 | Inl err \<Rightarrow>
                                                     if ContainsAny (String (snd kv)) [quote, CHR ''{'', CHR ''}'']
                                                     then ''{'' @ String (snd kv) @ ''}''
                                                     else [quote] @ String (snd kv) @ [quote])
                                              @ '',\<newline>'')
                                          (snd (snd r)))
                              @ ''}\<newline>'')
                        (zip (Entries bib) ords)))"
    by (simp only: pb)
  have col: "list_all (\<lambda>r. list_all (\<lambda>kv.
              length (''  '' @ fst kv @ replicate (longest (Fields (fst r)) - length (fst kv)) (CHR '' ''))
                = 2 + longest (Fields (fst r)))
            (snd (snd r)))
          (zip (Entries bib) ords)"
    unfolding list_all_iff
  proof (intro ballI)
    fix r kv
    assume r: "r \<in> set (zip (Entries bib) ords)" and kv: "kv \<in> set (snd (snd r))"
    obtain entry kk where rr: "r = (entry, kk)" by (cases r)
    from assms r have "range_map (Fields entry) (snd kk)"
      unfolding ranges2_def rr by (auto simp: list_all2_iff)
    then have "length (fst kv) \<le> longest (Fields entry)"
      using kv by (simp add: range_map_length_le_longest rr)
    then show "length (''  '' @ fst kv @ replicate (longest (Fields (fst r)) - length (fst kv)) (CHR '' ''))
                = 2 + longest (Fields (fst r))"
      by (simp add: rr)
  qed
  from out col show ?thesis by (rule conjI)
qed

theorem PrettyString_aligned_and_quoted_witness:
  "ranges2
     (Entries (AddEntry NewBibTex
        \<lparr>Type = ''book'', CiteName = ''k'',
         Fields = [''title'' \<mapsto> BibConst ''A {B}'', ''year'' \<mapsto> BibConst ''2020'',
                   ''by'' \<mapsto> BibConst ''me'']\<rparr>))
     [([''title'', ''by'', ''year''],
       [(''by'', BibConst ''me''), (''year'', BibConst ''2020''), (''title'', BibConst ''A {B}'')])]
   \<and> PrettyString
        (AddEntry NewBibTex
           \<lparr>Type = ''book'', CiteName = ''k'',
            Fields = [''title'' \<mapsto> BibConst ''A {B}'', ''year'' \<mapsto> BibConst ''2020'',
                      ''by'' \<mapsto> BibConst ''me'']\<rparr>)
        [([''title'', ''by'', ''year''],
          [(''by'', BibConst ''me''), (''year'', BibConst ''2020''), (''title'', BibConst ''A {B}'')])]
      = Inr (''@book{k,\<newline>''
             @ ''  by    = '' @ [quote] @ ''me'' @ [quote] @ '',\<newline>''
             @ ''  year  = 2020,\<newline>''
             @ ''  title = {A {B}},\<newline>''
             @ ''}\<newline>'')"
proof -
  let ?entry = "\<lparr>Type = ''book'', CiteName = ''k'',
         Fields = [''title'' \<mapsto> BibConst ''A {B}'', ''year'' \<mapsto> BibConst ''2020'',
                   ''by'' \<mapsto> BibConst ''me'']\<rparr>"
  let ?bib = "AddEntry NewBibTex ?entry"
  let ?ords = "[([''title'', ''by'', ''year''],
       [(''by'', BibConst ''me''), (''year'', BibConst ''2020''), (''title'', BibConst ''A {B}'')])]"
  have r: "ranges2 (Entries ?bib) ?ords"
    by (auto simp add: ranges2_def range_keys_def range_map_def AddEntry_def NewBibTex_def)
  have e: "PrettyString ?bib ?ords
      = Inr (''@book{k,\<newline>''
             @ ''  by    = '' @ [quote] @ ''me'' @ [quote] @ '',\<newline>''
             @ ''  year  = 2020,\<newline>''
             @ ''  title = {A {B}},\<newline>''
             @ ''}\<newline>'')"
    by code_simp
  show ?thesis
    using r e PrettyString_aligned_and_quoted [OF r] by blast
qed

lemma longest_single: "longest [key \<mapsto> val] = length key"
  by (simp add: longest_def)

text \<open>
  Claim C10: for a field whose resolved text is no integer, \<open>String\<close> writes the resolved
  text trimmed of the white space around it, in braces, whereas \<open>PrettyString\<close> writes it
  untrimmed and tests the untrimmed text for the characters that ask for braces. For a
  field that resolves to two spaces (the witness) \<open>String\<close> writes \<open>{}\<close> and
  \<open>PrettyString\<close> the two spaces in double quotes.

  The theorem gives the two loops over the fields in closed form, for any fields, with
  the text of such a value in each (\<open>String_value\<close>, \<open>PrettyString_value\<close>), and the whole
  output of both renderers for a bibliography of one entry with that one field.
\<close>

theorem String_trims_PrettyString_does_not:
  assumes "Atoi (TrimSpace (String val)) = Inl err"
  shows "String_fields kvs b
           = b @ concat (map (\<lambda>kv. field_line (fst kv) (String_value (snd kv))) kvs)
       \<and> String_value val = ''{'' @ TrimSpace (String val) @ ''}''
       \<and> (list_all (\<lambda>kv. length (fst kv) \<le> n) kvs \<longrightarrow>
            PrettyString_fields (int n) kvs b
              = Inr (b @ concat (map (\<lambda>kv. padded_line n (fst kv) (PrettyString_value (snd kv))) kvs)))
       \<and> PrettyString_value val
           = (if ContainsAny (String val) [quote, CHR ''{'', CHR ''}'']
              then ''{'' @ String val @ ''}''
              else [quote] @ String val @ [quote])
       \<and> ranges (Entries (AddEntry NewBibTex \<lparr>Type = t, CiteName = c, Fields = [key \<mapsto> val]\<rparr>))
           [[(key, val)]]
       \<and> ranges2 (Entries (AddEntry NewBibTex \<lparr>Type = t, CiteName = c, Fields = [key \<mapsto> val]\<rparr>))
           [([key], [(key, val)])]
       \<and> String_BibTex (AddEntry NewBibTex \<lparr>Type = t, CiteName = c, Fields = [key \<mapsto> val]\<rparr>)
           [[(key, val)]]
         = Inr (''@'' @ t @ ''{'' @ c @ '',\<newline>  '' @ key @ '' = {'' @ TrimSpace (String val)
                @ ''}\<newline>}\<newline>'')
       \<and> PrettyString (AddEntry NewBibTex \<lparr>Type = t, CiteName = c, Fields = [key \<mapsto> val]\<rparr>)
           [([key], [(key, val)])]
         = Inr (''@'' @ t @ ''{'' @ c @ '',\<newline>  '' @ key @ '' = ''
                @ (if ContainsAny (String val) [quote, CHR ''{'', CHR ''}'']
                   then ''{'' @ String val @ ''}''
                   else [quote] @ String val @ [quote])
                @ '',\<newline>}\<newline>'')"
proof -
  let ?entry = "\<lparr>Type = t, CiteName = c, Fields = [key \<mapsto> val]\<rparr>"
  let ?bib = "AddEntry NewBibTex ?entry"
  have es: "Entries ?bib = [?entry]"
    by (simp add: AddEntry_def NewBibTex_def)
  have ne: "[(key, val)] \<noteq> []" by simp
  have sv: "String_value val = ''{'' @ TrimSpace (String val) @ ''}''"
    using assms by (simp add: String_value_def)
  have pv: "PrettyString_value val
           = (if ContainsAny (String val) [quote, CHR ''{'', CHR ''}'']
              then ''{'' @ String val @ ''}''
              else [quote] @ String val @ [quote])"
    using assms by (simp add: PrettyString_value_def)
  have pf: "list_all (\<lambda>kv. length (fst kv) \<le> n) kvs \<longrightarrow>
            PrettyString_fields (int n) kvs b
              = Inr (b @ concat (map (\<lambda>kv. padded_line n (fst kv) (PrettyString_value (snd kv))) kvs))"
    by (simp add: PrettyString_fields_concat)
  have s: "String_BibTex ?bib [[(key, val)]]
         = Inr (''@'' @ t @ ''{'' @ c @ '',\<newline>  '' @ key @ '' = {'' @ TrimSpace (String val)
                @ ''}\<newline>}\<newline>'')"
    by (simp add: String_BibTex_def String_entries_blocks es String_block_fields [OF ne]
        entry_header_def sv)
  have r: "ranges2 (Entries ?bib) [([key], [(key, val)])]"
    by (simp add: es ranges2_def range_keys_def range_map_def)
  have p: "PrettyString ?bib [([key], [(key, val)])]
         = Inr (''@'' @ t @ ''{'' @ c @ '',\<newline>  '' @ key @ '' = ''
                @ (if ContainsAny (String val) [quote, CHR ''{'', CHR ''}'']
                   then ''{'' @ String val @ ''}''
                   else [quote] @ String val @ [quote])
                @ '',\<newline>}\<newline>'')"
    using PrettyString_entries_blocks [OF r, of "[]"]
    by (simp add: PrettyString_def es PrettyString_block_def padded_line_def longest_single
        entry_header_def pv)
  have r1: "ranges (Entries ?bib) [[(key, val)]]"
    by (simp add: es ranges_def range_map_def)
  from String_fields_concat [of kvs b] sv pf pv r1 r s p show ?thesis by (intro conjI)
qed

theorem String_trims_PrettyString_does_not_witness:
  "Atoi (TrimSpace (String (BibConst ''  ''))) = Inl NumError
   \<and> String_value (BibConst ''  '') = ''{}''
   \<and> PrettyString_value (BibConst ''  '') = [quote] @ ''  '' @ [quote]
   \<and> String_BibTex
        (AddEntry NewBibTex \<lparr>Type = ''misc'', CiteName = ''k'', Fields = [''note'' \<mapsto> BibConst ''  '']\<rparr>)
        [[(''note'', BibConst ''  '')]]
      = Inr ''@misc{k,\<newline>  note = {}\<newline>}\<newline>''
   \<and> PrettyString
        (AddEntry NewBibTex \<lparr>Type = ''misc'', CiteName = ''k'', Fields = [''note'' \<mapsto> BibConst ''  '']\<rparr>)
        [([''note''], [(''note'', BibConst ''  '')])]
      = Inr (''@misc{k,\<newline>  note = '' @ [quote] @ ''  '' @ [quote] @ '',\<newline>}\<newline>'')"
proof -
  have a: "Atoi (TrimSpace (String (BibConst ''  ''))) = Inl NumError"
    by code_simp
  have t: "TrimSpace ''  '' = []"
    by code_simp
  have c: "\<not> ContainsAny ''  '' [quote, CHR ''{'', CHR ''}'']"
    by code_simp
  show ?thesis
    using a String_trims_PrettyString_does_not [OF a, of "[]" "[]" 0 "''misc''" "''k''" "''note''"]
    by (simp add: t c)
qed

section \<open>The order of the maps\<close>






lemma range_map_exists:
  assumes "finite (dom m)"
  shows "\<exists>kvs. range_map m kvs"
proof -
  from finite_distinct_list [OF assms] obtain ks where kd: "set ks = dom m \<and> distinct ks" ..
  then have ks: "set ks = dom m" and d: "distinct ks" by simp_all
  let ?kvs = "map (\<lambda>k. (k, the (m k))) ks"
  have f: "map fst ?kvs = ks"
    by (simp add: comp_def)
  have r: "map_of ?kvs = (Some \<circ> (\<lambda>k. the (m k))) |` set ks"
    by (rule map_of_map_restrict)
  have "map_of ?kvs k = m k" for k
  proof (cases "m k")
    case None
    then have "k \<notin> set ks" by (simp add: ks domIff)
    then show ?thesis by (simp add: r restrict_map_def None)
  next
    case (Some y)
    then have "k \<in> set ks" by (simp add: ks domIff)
    then show ?thesis by (simp add: r restrict_map_def Some)
  qed
  then have "map_of ?kvs = m" by (rule ext)
  with d f have "range_map m ?kvs"
    by (simp only: range_map_def simp_thms)
  then show ?thesis ..
qed

lemma ranges_exist:
  "list_all (\<lambda>entry. finite (dom (Fields entry))) es \<Longrightarrow> \<exists>ords. ranges es ords"
proof (induction es)
  case Nil
  then show ?case by (simp add: ranges_def)
next
  case (Cons entry es)
  from Cons.prems have fe: "finite (dom (Fields entry))"
    and fs: "list_all (\<lambda>entry. finite (dom (Fields entry))) es"
    by simp_all
  from Cons.IH [OF fs] obtain ords where o: "ranges es ords" ..
  from range_map_exists [OF fe] obtain kvs where k: "range_map (Fields entry) kvs" ..
  from o k have "ranges (entry # es) (kvs # ords)"
    by (simp add: ranges_def)
  then show ?case ..
qed

lemma String_BibTex_returns:
  assumes "list_all (\<lambda>entry. finite (dom (Fields entry))) (Entries bib)"
  shows "\<exists>ords out. ranges (Entries bib) ords \<and> String_BibTex bib ords = Inr out"
proof -
  from ranges_exist [OF assms] obtain ords where o: "ranges (Entries bib) ords" ..
  have "String_BibTex bib ords = Inr (concat (map String_block (zip (Entries bib) ords)))"
    by (simp add: String_BibTex_def String_entries_blocks)
  with o show ?thesis by blast
qed

lemma range_map_keys: "range_map m kvs \<Longrightarrow> range_keys m (map fst kvs)"
proof -
  assume r: "range_map m kvs"
  have "dom (map_of kvs) = set (map fst kvs)"
    by (simp add: dom_map_of_conv_image_fst)
  with r show ?thesis
    by (simp add: range_map_def range_keys_def)
qed

lemma ranges2_exist:
  "list_all (\<lambda>entry. finite (dom (Fields entry))) es \<Longrightarrow> \<exists>ords. ranges2 es ords"
proof (induction es)
  case Nil
  then show ?case by (simp add: ranges2_def)
next
  case (Cons entry es)
  from Cons.prems have fe: "finite (dom (Fields entry))"
    and fs: "list_all (\<lambda>entry. finite (dom (Fields entry))) es"
    by simp_all
  from Cons.IH [OF fs] obtain ords where o: "ranges2 es ords" ..
  from range_map_exists [OF fe] obtain kvs where k: "range_map (Fields entry) kvs" ..
  from o k range_map_keys [OF k] have "ranges2 (entry # es) ((map fst kvs, kvs) # ords)"
    by (simp add: ranges2_def)
  then show ?case ..
qed

lemma RawString_BibTex_returns:
  assumes "finite (dom (StringVar bib))"
    and "list_all (\<lambda>entry. finite (dom (Fields entry))) (Entries bib)"
  shows "\<exists>vars ords out. range_map (StringVar bib) vars \<and> ranges (Entries bib) ords
           \<and> RawString_BibTex bib vars ords = Inr out"
proof -
  from range_map_exists [OF assms(1)] obtain vars where v: "range_map (StringVar bib) vars" ..
  from ranges_exist [OF assms(2)] obtain ords where o: "ranges (Entries bib) ords" ..
  have "\<exists>out. RawString_BibTex bib vars ords = Inr out"
    by (simp add: RawString_BibTex_def RawString_entries_blocks)
  with v o show ?thesis by blast
qed

lemma PrettyString_returns:
  assumes "list_all (\<lambda>entry. finite (dom (Fields entry))) (Entries bib)"
  shows "\<exists>ords out. ranges2 (Entries bib) ords \<and> PrettyString bib ords = Inr out"
proof -
  from ranges2_exist [OF assms] obtain ords where o: "ranges2 (Entries bib) ords" ..
  have "\<exists>out. PrettyString bib ords = Inr out"
    using PrettyString_entries_blocks [OF o, of "[]"] by (simp add: PrettyString_def)
  with o show ?thesis by blast
qed




end
